theory Spec2Isabelle
  imports Complex_Main "HOL-Library.AList" "HOL-Library.Multiset"
begin

section \<open>The budget comparison server (server.ts)\<close>

text \<open>
  The development follows \<^verbatim>\<open>src/server.ts\<close>: \<^verbatim>\<open>removeAccents\<close>,
  \<^verbatim>\<open>scrapeMefData\<close> and the handler of \<^verbatim>\<open>POST /api/comparar\<close>.

  Conventions of the embedding.
  \<^item> A JavaScript string is the list of its UTF-16 code units (\<open>nat list\<close>).
  \<^item> A JavaScript number is an exact rational, \<open>NaN\<close>, or one of the two infinities.
    Rounding to the nearest double and overflow are not part of the model, and the two
    zeros are one value (\<open>-0 === 0\<close> holds in the source, and JSON prints both as 0).
  \<^item> A plain object used as a dictionary is the list of its own properties in creation
    order; reading walks on to \<^verbatim>\<open>Object.prototype\<close>, as the source's \<^verbatim>\<open>obj[key]\<close> does.
  \<^item> The network, the HTML parser and the Unicode tables are inputs: a fetch outcome
    per URL, the rows of the first \<^verbatim>\<open>table.Data\<close> as lists of cell texts, and
    the function \<open>nfd\<close> (\<^verbatim>\<open>String.prototype.normalize("NFD")\<close>).
\<close>

subsection \<open>Strings\<close>

type_synonym jsstring = "nat list"

definition ustr :: "string \<Rightarrow> jsstring" where
  "ustr s = map of_char s"

definition is_digit :: "nat \<Rightarrow> bool" where
  "is_digit c = (48 \<le> c \<and> c \<le> 57)"

definition digits_val :: "jsstring \<Rightarrow> nat" where
  "digits_val ds = foldl (\<lambda>a c. 10 * a + (c - 48)) 0 ds"

text \<open>White space and line terminators, as \<^verbatim>\<open>trim\<close> and \<^verbatim>\<open>parseFloat\<close> skip them.\<close>

definition is_space :: "nat \<Rightarrow> bool" where
  "is_space c = (c \<in> {9, 10, 11, 12, 13, 32, 160, 5760, 8232, 8233, 8239, 8287, 12288, 65279}
                 \<or> (8192 \<le> c \<and> c \<le> 8202))"

definition trim :: "jsstring \<Rightarrow> jsstring" where
  "trim s = rev (dropWhile is_space (rev (dropWhile is_space s)))"

fun is_prefix :: "jsstring \<Rightarrow> jsstring \<Rightarrow> bool" where
  "is_prefix [] ys = True"
| "is_prefix (x # xs) [] = False"
| "is_prefix (x # xs) (y # ys) = (x = y \<and> is_prefix xs ys)"

text \<open>\<^verbatim>\<open>String.prototype.includes\<close>.\<close>

fun str_includes :: "jsstring \<Rightarrow> jsstring \<Rightarrow> bool" where
  "str_includes [] t = (t = [])"
| "str_includes (c # cs) t = (is_prefix t (c # cs) \<or> str_includes cs t)"

text \<open>Decimal notation of an integer, as a template literal prints it.\<close>

fun show_nat :: "nat \<Rightarrow> jsstring" where
  "show_nat n = (if n < 10 then [48 + n] else show_nat (n div 10) @ [48 + n mod 10])"

declare show_nat.simps [simp del]

definition show_int :: "int \<Rightarrow> jsstring" where
  "show_int i = (if i < 0 then 45 # show_nat (nat (- i)) else show_nat (nat i))"

subsection \<open>Numbers\<close>

datatype number = Fin rat | PInf | NInf | NaN

text \<open>
  The arithmetic operators of the source on this type. The handler divides by
  \<open>1000000\<close> and by a \<open>montoAnterior\<close> that line 99 has tested against zero; the
  zero-divisor equations are there for totality.
\<close>

fun num_neg :: "number \<Rightarrow> number" where
  "num_neg (Fin a) = Fin (- a)"
| "num_neg PInf = NInf"
| "num_neg NInf = PInf"
| "num_neg NaN = NaN"

fun num_add :: "number \<Rightarrow> number \<Rightarrow> number" where
  "num_add (Fin a) (Fin b) = Fin (a + b)"
| "num_add NaN _ = NaN"
| "num_add _ NaN = NaN"
| "num_add PInf NInf = NaN"
| "num_add NInf PInf = NaN"
| "num_add PInf _ = PInf"
| "num_add _ PInf = PInf"
| "num_add NInf _ = NInf"
| "num_add _ NInf = NInf"

definition num_sub :: "number \<Rightarrow> number \<Rightarrow> number" where
  "num_sub x y = num_add x (num_neg y)"

definition inf_of_sign :: "bool \<Rightarrow> number" where
  "inf_of_sign negative = (if negative then NInf else PInf)"

fun num_mul :: "number \<Rightarrow> number \<Rightarrow> number" where
  "num_mul (Fin a) (Fin b) = Fin (a * b)"
| "num_mul NaN _ = NaN"
| "num_mul _ NaN = NaN"
| "num_mul (Fin a) PInf = (if a = 0 then NaN else inf_of_sign (a < 0))"
| "num_mul (Fin a) NInf = (if a = 0 then NaN else inf_of_sign (0 < a))"
| "num_mul PInf (Fin b) = (if b = 0 then NaN else inf_of_sign (b < 0))"
| "num_mul NInf (Fin b) = (if b = 0 then NaN else inf_of_sign (0 < b))"
| "num_mul PInf PInf = PInf"
| "num_mul NInf NInf = PInf"
| "num_mul PInf NInf = NInf"
| "num_mul NInf PInf = NInf"

fun num_div :: "number \<Rightarrow> number \<Rightarrow> number" where
  "num_div (Fin a) (Fin b) =
     (if b = 0 then (if a = 0 then NaN else inf_of_sign (a < 0)) else Fin (a / b))"
| "num_div NaN _ = NaN"
| "num_div _ NaN = NaN"
| "num_div (Fin a) PInf = Fin 0"
| "num_div (Fin a) NInf = Fin 0"
| "num_div PInf (Fin b) = inf_of_sign (b < 0)"
| "num_div NInf (Fin b) = inf_of_sign (0 \<le> b)"
| "num_div PInf PInf = NaN"
| "num_div PInf NInf = NaN"
| "num_div NInf PInf = NaN"
| "num_div NInf NInf = NaN"

text \<open>\<^verbatim>\<open>Math.trunc\<close>: the integral part, digits after the point dropped.\<close>

definition trunc_rat :: "rat \<Rightarrow> int" where
  "trunc_rat x = (if 0 \<le> x then \<lfloor>x\<rfloor> else \<lceil>x\<rceil>)"

fun math_trunc :: "number \<Rightarrow> number" where
  "math_trunc (Fin a) = Fin (of_int (trunc_rat a))"
| "math_trunc x = x"

text \<open>
  \<^verbatim>\<open>Number(x.toFixed(1))\<close>. \<^verbatim>\<open>toFixed\<close> takes the integer \<open>n\<close> with \<open>n / 10\<close>
  nearest to \<open>\<bar>x\<bar>\<close>, the larger one of two, and puts the sign back. From \<open>10^21\<close> on
  it prints the number itself, which as a double is integral already.
\<close>

definition round1 :: "rat \<Rightarrow> rat" where
  "round1 x = (if 0 \<le> x then of_int \<lfloor>x * 10 + 1 / 2\<rfloor> / 10
               else - (of_int \<lfloor>- x * 10 + 1 / 2\<rfloor> / 10))"

fun toFixed1 :: "number \<Rightarrow> number" where
  "toFixed1 (Fin a) = Fin (round1 a)"
| "toFixed1 x = x"

text \<open>The sign test that \<^verbatim>\<open>Array.prototype.sort\<close> applies to a comparator's result.\<close>

fun is_positive :: "number \<Rightarrow> bool" where
  "is_positive (Fin a) = (0 < a)"
| "is_positive PInf = True"
| "is_positive _ = False"

subsection \<open>Values and plain objects\<close>

text \<open>
  What \<^verbatim>\<open>data[key]\<close> can evaluate to: \<^verbatim>\<open>undefined\<close>, a stored number, or a
  member inherited from \<^verbatim>\<open>Object.prototype\<close> (a function or an object).
\<close>

datatype jsvalue = Undefined | Num number | Inherited

type_synonym dataset = "(jsstring \<times> number) list"

definition object_prototype_names :: "jsstring list" where
  "object_prototype_names = map ustr
     [''constructor'', ''__defineGetter__'', ''__defineSetter__'', ''hasOwnProperty'',
      ''__lookupGetter__'', ''__lookupSetter__'', ''isPrototypeOf'', ''propertyIsEnumerable'',
      ''toString'', ''valueOf'', ''__proto__'', ''toLocaleString'']"

text \<open>\<^verbatim>\<open>obj[key]\<close>: an own property first, then the prototype.\<close>

definition obj_get :: "dataset \<Rightarrow> jsstring \<Rightarrow> jsvalue" where
  "obj_get d k = (case map_of d k of
       Some v \<Rightarrow> Num v
     | None \<Rightarrow> if k \<in> set object_prototype_names then Inherited else Undefined)"

text \<open>
  \<^verbatim>\<open>obj[key] = v\<close> for a number \<open>v\<close>: an existing own property keeps its place, a
  new one goes last. The key \<^verbatim>\<open>__proto__\<close> reaches the setter inherited from
  \<^verbatim>\<open>Object.prototype\<close>, which ignores a value that is neither an object nor null.
\<close>

definition obj_set :: "dataset \<Rightarrow> jsstring \<Rightarrow> number \<Rightarrow> dataset" where
  "obj_set d k v = (if k = ustr ''__proto__'' then d else AList.update k v d)"

text \<open>
  \<^verbatim>\<open>Object.keys\<close>: the keys that are array indices (canonical decimal numerals
  below \<open>2^32 - 1\<close>) in ascending numeric order, then the others in creation order.
\<close>

definition is_array_index :: "jsstring \<Rightarrow> bool" where
  "is_array_index k = (k \<noteq> [] \<and> list_all is_digit k \<and> (k = [48] \<or> hd k \<noteq> 48)
                       \<and> digits_val k < 4294967295)"

definition object_keys :: "dataset \<Rightarrow> jsstring list" where
  "object_keys d = sort_key digits_val (filter is_array_index (map fst d))
                   @ filter (\<lambda>k. \<not> is_array_index k) (map fst d)"

text \<open>
  Truthiness, \<^verbatim>\<open>a || b\<close>, and the conversion the operator \<^verbatim>\<open>/\<close> applies: the
  inherited members are functions and one object, all truthy, and none of them converts
  to a number.
\<close>

fun truthy :: "jsvalue \<Rightarrow> bool" where
  "truthy Undefined = False"
| "truthy (Num (Fin a)) = (a \<noteq> 0)"
| "truthy (Num NaN) = False"
| "truthy (Num _) = True"
| "truthy Inherited = True"

definition or_else :: "jsvalue \<Rightarrow> jsvalue \<Rightarrow> jsvalue" where
  "or_else a b = (if truthy a then a else b)"

fun to_number :: "jsvalue \<Rightarrow> number" where
  "to_number (Num n) = n"
| "to_number _ = NaN"

subsection \<open>The comparison rows (lines 86 to 113)\<close>

record comparison_row =
  concepto :: jsstring
  montoAnterior :: number
  montoActual :: number
  variacionS :: number
  variacionPorcentaje :: number

text \<open>\<^verbatim>\<open>Array.from(new Set(xs))\<close>: the first occurrence of each element, in order.\<close>

definition set_add :: "'a list \<Rightarrow> 'a \<Rightarrow> 'a list" where
  "set_add acc x = (if x \<in> set acc then acc else acc @ [x])"

definition set_from :: "'a list \<Rightarrow> 'a list" where
  "set_from xs = foldl set_add [] xs"

definition conceptos :: "dataset \<Rightarrow> dataset \<Rightarrow> jsstring list" where
  "conceptos dataActual dataAnterior = set_from (object_keys dataActual @ object_keys dataAnterior)"

definition scaled :: "jsvalue \<Rightarrow> number" where
  "scaled raw = math_trunc (num_div (to_number raw) (Fin 1000000))"

definition make_row :: "dataset \<Rightarrow> dataset \<Rightarrow> jsstring \<Rightarrow> comparison_row" where
  "make_row dataActual dataAnterior c =
     (let montoAnteriorRaw = or_else (obj_get dataAnterior c) (Num (Fin 0));
          montoActualRaw = or_else (obj_get dataActual c) (Num (Fin 0));
          mAnterior = scaled montoAnteriorRaw;
          mActual = scaled montoActualRaw;
          varS = num_sub mActual mAnterior;
          varP = (if mAnterior \<noteq> Fin 0
                  then toFixed1 (num_sub (num_mul (num_div mActual mAnterior) (Fin 100)) (Fin 100))
                  else Fin 0)
      in \<lparr>concepto = c, montoAnterior = mAnterior, montoActual = mActual,
          variacionS = varS, variacionPorcentaje = varP\<rparr>)"

text \<open>
  \<^verbatim>\<open>Array.prototype.sort\<close> with a comparator: a positive result puts the first
  argument after the second, anything else (a \<open>NaN\<close> counts as zero) leaves them. The
  sort is stable; it is written here as an insertion sort from the right.
\<close>

fun sort_insert :: "('a \<Rightarrow> 'a \<Rightarrow> number) \<Rightarrow> 'a \<Rightarrow> 'a list \<Rightarrow> 'a list" where
  "sort_insert cmp x [] = [x]"
| "sort_insert cmp x (y # ys) =
     (if is_positive (cmp x y) then y # sort_insert cmp x ys else x # y # ys)"

definition array_sort :: "('a \<Rightarrow> 'a \<Rightarrow> number) \<Rightarrow> 'a list \<Rightarrow> 'a list" where
  "array_sort cmp xs = foldr (sort_insert cmp) xs []"

definition by_variacion_desc :: "comparison_row \<Rightarrow> comparison_row \<Rightarrow> number" where
  "by_variacion_desc a b = num_sub (variacionS b) (variacionS a)"

definition unsorted_rows :: "dataset \<Rightarrow> dataset \<Rightarrow> comparison_row list" where
  "unsorted_rows dataActual dataAnterior =
     map (make_row dataActual dataAnterior) (conceptos dataActual dataAnterior)"

definition differ :: "dataset \<Rightarrow> dataset \<Rightarrow> comparison_row list" where
  "differ dataActual dataAnterior =
     array_sort by_variacion_desc (unsorted_rows dataActual dataAnterior)"

text \<open>The comparison \<^verbatim>\<open><\<close> of two numbers; it is false as soon as one is \<open>NaN\<close>.\<close>

fun num_less :: "number \<Rightarrow> number \<Rightarrow> bool" where
  "num_less (Fin a) (Fin b) = (a < b)"
| "num_less NaN _ = False"
| "num_less _ NaN = False"
| "num_less _ NInf = False"
| "num_less PInf _ = False"
| "num_less NInf _ = True"
| "num_less (Fin a) PInf = True"

text \<open>No row's \<open>variacionS\<close> exceeds that of a row before it.\<close>

definition descending :: "comparison_row list \<Rightarrow> bool" where
  "descending rows = sorted_wrt (\<lambda>a b. \<not> num_less (variacionS a) (variacionS b)) rows"

text \<open>The rows of \<open>pre\<close> that share a \<open>variacionS\<close> come in \<open>out\<close> in the same order.\<close>

definition retains_order :: "comparison_row list \<Rightarrow> comparison_row list \<Rightarrow> bool" where
  "retains_order out pre =
     (\<forall>r \<in> set pre. filter (\<lambda>q. variacionS q = variacionS r) out
                     = filter (\<lambda>q. variacionS q = variacionS r) pre)"

text \<open>
  The pre-sort order in the words of the specification (section 4.5, step 1), for
  comparison with \<open>conceptos\<close>: the labels of the current dataset in insertion order, then
  the labels only the prior dataset has, in insertion order.
\<close>

definition insertion_order_labels :: "dataset \<Rightarrow> dataset \<Rightarrow> jsstring list" where
  "insertion_order_labels current prior =
     map fst current @ filter (\<lambda>k. k \<notin> fst ` set current) (map fst prior)"

subsection \<open>\<^verbatim>\<open>parseFloat\<close> and \<^verbatim>\<open>removeAccents\<close>\<close>

text \<open>
  \<^verbatim>\<open>parseFloat\<close> skips leading white space and reads the longest prefix that is a
  \<^verbatim>\<open>StrDecimalLiteral\<close>: a sign, then \<^verbatim>\<open>Infinity\<close> or digits with an optional
  fraction and an optional exponent. An exponent counts only with a digit in it. With
  no such prefix the result is \<open>NaN\<close>.
\<close>

definition strip_sign :: "jsstring \<Rightarrow> bool \<times> jsstring" where
  "strip_sign s = (case s of
       [] \<Rightarrow> (False, [])
     | c # cs \<Rightarrow> if c = 45 then (True, cs) else if c = 43 then (False, cs) else (False, s))"

definition pow10 :: "int \<Rightarrow> rat" where
  "pow10 e = (if 0 \<le> e then 10 ^ nat e else 1 / 10 ^ nat (- e))"

definition exponent_part :: "jsstring \<Rightarrow> int" where
  "exponent_part s = (case s of
       [] \<Rightarrow> 0
     | c # cs \<Rightarrow>
         if c = 101 \<or> c = 69
         then (let (negative, ds) = strip_sign cs; e = takeWhile is_digit ds
               in if e = [] then 0
                  else if negative then - int (digits_val e) else int (digits_val e))
         else 0)"

definition fraction_digits :: "jsstring \<Rightarrow> jsstring" where
  "fraction_digits r = (case r of [] \<Rightarrow> [] | c # cs \<Rightarrow> if c = 46 then takeWhile is_digit cs else [])"

definition after_fraction :: "jsstring \<Rightarrow> jsstring" where
  "after_fraction r = (case r of [] \<Rightarrow> [] | c # cs \<Rightarrow> if c = 46 then dropWhile is_digit cs else r)"

definition unsigned_literal :: "jsstring \<Rightarrow> number" where
  "unsigned_literal s =
     (let ip = takeWhile is_digit s;
          r = dropWhile is_digit s;
          fp = fraction_digits r
      in if ip = [] \<and> fp = [] then NaN
         else Fin ((of_nat (digits_val ip) + of_nat (digits_val fp) / 10 ^ length fp)
                   * pow10 (exponent_part (after_fraction r))))"

definition parseFloat :: "jsstring \<Rightarrow> number" where
  "parseFloat input =
     (let (negative, s) = strip_sign (dropWhile is_space input)
      in if is_prefix (ustr ''Infinity'') s then inf_of_sign negative
         else if negative then num_neg (unsigned_literal s) else unsigned_literal s)"



text \<open>Lines 17 to 19; \<open>nfd\<close> is \<^verbatim>\<open>normalize("NFD")\<close>.\<close>

definition removeAccents :: "(jsstring \<Rightarrow> jsstring) \<Rightarrow> jsstring \<Rightarrow> jsstring" where
  "removeAccents nfd str = filter (\<lambda>c. \<not> (768 \<le> c \<and> c \<le> 879)) (nfd str)"

subsection \<open>\<^verbatim>\<open>scrapeMefData\<close> (lines 21 to 63)\<close>

text \<open>
  An error object as the \<^verbatim>\<open>catch\<close> clause reads it: its message, the status of
  \<^verbatim>\<open>error.response\<close> when there is one, and whether \<^verbatim>\<open>error.request\<close> is set.
\<close>

record js_error =
  message :: jsstring
  response :: "nat option"
  request :: bool

definition new_Error :: "jsstring \<Rightarrow> js_error" where
  "new_Error msg = \<lparr>message = msg, response = None, request = False\<rparr>"

definition msg_no_table :: jsstring where
  "msg_no_table = ustr ''No se encontr'' @ [243] @ ustr '' la tabla de datos en la URL proporcionada. Verifique que el enlace sea de Consulta Amigable.''"

definition msg_no_data :: jsstring where
  "msg_no_data = ustr ''La tabla se encontr'' @ [243] @ ustr '' pero no contiene datos num'' @ [233]
     @ ustr ''ricos v'' @ [225] @ ustr ''lidos en las columnas esperadas.''"

definition msg_status :: "nat \<Rightarrow> jsstring" where
  "msg_status st = ustr ''Error al acceder a la URL: El servidor respondi'' @ [243]
     @ ustr '' con estado '' @ show_nat st @ ustr ''.''"

definition msg_network :: jsstring where
  "msg_network = ustr ''Error de red: No se pudo conectar a la URL proporcionada.''"

type_synonym row = "jsstring list"

text \<open>The page after \<^verbatim>\<open>cheerio.load\<close>: the rows of the first \<^verbatim>\<open>table.Data\<close>, if any.\<close>

type_synonym page = "row list option"

definition row_amount :: "row \<Rightarrow> number" where
  "row_amount cols = parseFloat (filter (\<lambda>c. c \<noteq> 44) (trim (cols ! 7)))"

definition row_label :: "(jsstring \<Rightarrow> jsstring) \<Rightarrow> row \<Rightarrow> jsstring" where
  "row_label nfd cols = removeAccents nfd (trim (cols ! 1))"

text \<open>The body of the \<^verbatim>\<open>each\<close> callback, on the pair \<open>(data, hasData)\<close>.\<close>

definition row_step :: "(jsstring \<Rightarrow> jsstring) \<Rightarrow> dataset \<times> bool \<Rightarrow> row \<Rightarrow> dataset \<times> bool" where
  "row_step nfd st cols =
     (if 8 \<le> length cols
      then (let monto = row_amount cols
            in if monto \<noteq> NaN then (obj_set (fst st) (row_label nfd cols) monto, True) else st)
      else st)"

definition parse_table :: "(jsstring \<Rightarrow> jsstring) \<Rightarrow> page \<Rightarrow> js_error + dataset" where
  "parse_table nfd pg = (case pg of
       None \<Rightarrow> Inl (new_Error msg_no_table)
     | Some rows \<Rightarrow>
         (let (data, hasData) = foldl (row_step nfd) ([], False) rows
          in if \<not> hasData then Inl (new_Error msg_no_data) else Inr data))"

text \<open>A row that the loop stores: at least 8 cells, and an amount that is a number.\<close>

definition parsed_row :: "row \<Rightarrow> bool" where
  "parsed_row cols = (8 \<le> length cols \<and> row_amount cols \<noteq> NaN)"

definition catch_clause :: "js_error \<Rightarrow> js_error" where
  "catch_clause e = (case response e of
       Some st \<Rightarrow> new_Error (msg_status st)
     | None \<Rightarrow>
         if request e \<and> \<not> str_includes (message e) (ustr ''No se encontr'' @ [243])
         then new_Error msg_network
         else e)"

text \<open>
  The argument is what \<^verbatim>\<open>axios.get\<close>, the decoder and \<^verbatim>\<open>cheerio.load\<close> give for the
  URL: an error thrown, or the page.
\<close>

definition scrapeMefData :: "(jsstring \<Rightarrow> jsstring) \<Rightarrow> js_error + page \<Rightarrow> js_error + dataset" where
  "scrapeMefData nfd fetched =
     (case (case fetched of Inl e \<Rightarrow> Inl e | Inr pg \<Rightarrow> parse_table nfd pg) of
        Inl e \<Rightarrow> Inl (catch_clause e)
      | Inr data \<Rightarrow> Inr data)"

subsection \<open>The handler of \<^verbatim>\<open>POST /api/comparar\<close> (lines 65 to 125)\<close>

datatype body = ErrorBody jsstring | ResultBody int int "comparison_row list"

record http_response =
  status :: nat
  json :: body

definition msg_url_required :: jsstring where
  "msg_url_required = ustr ''La URL es requerida.''"

definition msg_no_year :: jsstring where
  "msg_no_year = ustr ''La URL no contiene el par'' @ [225] @ ustr ''metro de a'' @ [241] @ ustr ''o ''
     @ [39] @ ustr ''y='' @ [39] @ ustr ''. Aseg'' @ [250] @ ustr ''rese de copiar el enlace correcto.''"

definition msg_internal :: jsstring where
  "msg_internal = ustr ''Error interno del servidor''"

definition msg_year :: "int \<Rightarrow> jsstring \<Rightarrow> jsstring" where
  "msg_year year msg = ustr ''Error en datos de '' @ show_int year @ ustr '': '' @ msg"

text \<open>
  The regular expression \<^verbatim>\<open>/y=(\d{4})/\<close> at the head of a string: the four digits
  and what follows them.
\<close>

definition year_here :: "jsstring \<Rightarrow> (jsstring \<times> jsstring) option" where
  "year_here s = (case s of
       y # e # d1 # d2 # d3 # d4 # rest \<Rightarrow>
         if y = 121 \<and> e = 61 \<and> is_digit d1 \<and> is_digit d2 \<and> is_digit d3 \<and> is_digit d4
         then Some ([d1, d2, d3, d4], rest) else None
     | _ \<Rightarrow> None)"

text \<open>The leftmost match: the text before it, the digits, the text after it.\<close>

fun year_match :: "jsstring \<Rightarrow> jsstring \<Rightarrow> (jsstring \<times> jsstring \<times> jsstring) option" where
  "year_match before [] = None"
| "year_match before (c # cs) = (case year_here (c # cs) of
       Some (ds, rest) \<Rightarrow> Some (before, ds, rest)
     | None \<Rightarrow> year_match (before @ [c]) cs)"

text \<open>Lines 72 to 79: \<open>yearActual\<close>, \<open>yearAnterior\<close> and \<open>urlAnterior\<close>.\<close>

definition resolve_year :: "jsstring \<Rightarrow> (int \<times> int \<times> jsstring) option" where
  "resolve_year url = (case year_match [] url of
       None \<Rightarrow> None
     | Some (before, ds, rest) \<Rightarrow>
         (let yearActual = int (digits_val ds);
              yearAnterior = yearActual - 1
          in Some (yearActual, yearAnterior, before @ ustr ''y='' @ show_int yearAnterior @ rest)))"

text \<open>
  In the words of the specification: the token \<^verbatim>\<open>y=\<close> followed by 4 digits stands at
  position \<open>i\<close> of the URL.
\<close>

definition token_at :: "jsstring \<Rightarrow> nat \<Rightarrow> bool" where
  "token_at url i = (take 2 (drop i url) = ustr ''y='' \<and> 4 \<le> length (drop (i + 2) url)
                     \<and> list_all is_digit (take 4 (drop (i + 2) url)))"

text \<open>
  \<^verbatim>\<open>Promise.all\<close> of the two pipelines: both values, or the rejection that comes
  first. Which pipeline settles first is decided by the network, so it is an input.
\<close>

datatype pipeline = Actual | Anterior

definition promise_all ::
  "pipeline \<Rightarrow> js_error + dataset \<Rightarrow> js_error + dataset \<Rightarrow> js_error + dataset \<times> dataset" where
  "promise_all first_settled pActual pAnterior = (case (pActual, pAnterior) of
       (Inr a, Inr b) \<Rightarrow> Inr (a, b)
     | (Inl e, Inr b) \<Rightarrow> Inl e
     | (Inr a, Inl e) \<Rightarrow> Inl e
     | (Inl e1, Inl e2) \<Rightarrow> (if first_settled = Actual then Inl e1 else Inl e2))"

text \<open>The \<^verbatim>\<open>.catch\<close> of lines 82 and 83.\<close>

definition with_year :: "int \<Rightarrow> js_error + dataset \<Rightarrow> js_error + dataset" where
  "with_year year p = (case p of
       Inl e \<Rightarrow> Inl (new_Error (msg_year year (message e)))
     | Inr data \<Rightarrow> Inr data)"

text \<open>
  The handler. \<open>body_url\<close> is the \<^verbatim>\<open>url\<close> field of the request body, a string, or
  \<open>None\<close> when it is missing; \<open>fetch\<close> gives the outcome of a GET per URL. The result
  is the response and the list of URLs requested. Both requests are sent before either
  pipeline is awaited.
\<close>

definition comparar ::
  "(jsstring \<Rightarrow> jsstring) \<Rightarrow> (jsstring \<Rightarrow> js_error + page) \<Rightarrow> pipeline \<Rightarrow> jsstring option
   \<Rightarrow> http_response \<times> jsstring list" where
  "comparar nfd fetch first_settled body_url = (case body_url of
       None \<Rightarrow> (\<lparr>status = 400, json = ErrorBody msg_url_required\<rparr>, [])
     | Some url \<Rightarrow>
         if url = [] then (\<lparr>status = 400, json = ErrorBody msg_url_required\<rparr>, [])
         else (case resolve_year url of
             None \<Rightarrow> (\<lparr>status = 400, json = ErrorBody msg_no_year\<rparr>, [])
           | Some (yearActual, yearAnterior, urlAnterior) \<Rightarrow>
               (case promise_all first_settled
                       (with_year yearActual (scrapeMefData nfd (fetch url)))
                       (with_year yearAnterior (scrapeMefData nfd (fetch urlAnterior))) of
                  Inl e \<Rightarrow>
                    (\<lparr>status = 500,
                      json = ErrorBody (if message e = [] then msg_internal else message e)\<rparr>,
                     [url, urlAnterior])
                | Inr (dataActual, dataAnterior) \<Rightarrow>
                    (\<lparr>status = 200,
                      json = ResultBody yearActual yearAnterior (differ dataActual dataAnterior)\<rparr>,
                     [url, urlAnterior]))))"

section \<open>Properties\<close>

subsection \<open>Arithmetic\<close>

lemma floor_rat_numeral [simp]:
  "\<lfloor>numeral a / numeral b :: rat\<rfloor> = numeral a div numeral b"
  by (metis floor_divide_of_int_eq of_int_numeral)

lemma floor_rat_neg_numeral [simp]:
  "\<lfloor>- (numeral a / numeral b) :: rat\<rfloor> = - numeral a div numeral b"
  by (metis divide_minus_left floor_divide_of_int_eq of_int_neg_numeral of_int_numeral)

lemma ceiling_rat_numeral [simp]:
  "\<lceil>numeral a / numeral b :: rat\<rceil> = - (- numeral a div numeral b)"
  by (simp add: ceiling_def)

lemma ceiling_rat_neg_numeral [simp]:
  "\<lceil>- (numeral a / numeral b) :: rat\<rceil> = - (numeral a div numeral b)"
  by (simp add: ceiling_def)

lemma floor_rat_one_divide [simp]:
  "\<lfloor>1 / numeral b :: rat\<rfloor> = 1 div numeral b"
  by (metis floor_divide_of_int_eq of_int_1 of_int_numeral)

lemma floor_rat_neg_one_divide [simp]:
  "\<lfloor>- (1 / numeral b) :: rat\<rfloor> = - 1 div numeral b"
  by (metis divide_minus_left floor_divide_of_int_eq of_int_minus of_int_1 of_int_numeral)

lemma ceiling_rat_one_divide [simp]:
  "\<lceil>1 / numeral b :: rat\<rceil> = - (- 1 div numeral b)"
  by (simp add: ceiling_def)

lemma ceiling_rat_neg_one_divide [simp]:
  "\<lceil>- (1 / numeral b) :: rat\<rceil> = - (1 div numeral b)"
  by (simp add: ceiling_def)




subsection \<open>The rows of the Differ\<close>

lemma set_sort_insert: "set (sort_insert cmp x ys) = insert x (set ys)"
  by (induction ys) auto

lemma length_sort_insert: "length (sort_insert cmp x ys) = Suc (length ys)"
  by (induction ys) auto

lemma set_array_sort: "set (array_sort cmp xs) = set xs"
  unfolding array_sort_def by (induction xs) (auto simp: set_sort_insert)

lemma length_array_sort: "length (array_sort cmp xs) = length xs"
  unfolding array_sort_def by (induction xs) (auto simp: length_sort_insert)

lemma set_foldl_set_add: "set (foldl set_add acc xs) = set acc \<union> set xs"
  by (induction xs arbitrary: acc) (auto simp: set_add_def)

lemma distinct_foldl_set_add: "distinct acc \<Longrightarrow> distinct (foldl set_add acc xs)"
  by (induction xs arbitrary: acc) (auto simp: set_add_def)

lemma set_set_from: "set (set_from xs) = set xs"
  by (simp add: set_from_def set_foldl_set_add)

lemma distinct_set_from: "distinct (set_from xs)"
  by (simp add: set_from_def distinct_foldl_set_add)

lemma set_object_keys: "set (object_keys d) = fst ` set d"
  unfolding object_keys_def by auto

lemma set_conceptos: "set (conceptos a p) = fst ` set a \<union> fst ` set p"
  by (simp add: conceptos_def set_set_from set_object_keys)


lemma length_differ: "length (differ a p) = card (fst ` set a \<union> fst ` set p)"
proof -
  have "length (differ a p) = length (conceptos a p)"
    by (simp add: differ_def length_array_sort unsorted_rows_def)
  also have "\<dots> = card (set (conceptos a p))"
    by (simp add: conceptos_def distinct_set_from distinct_card)
  finally show ?thesis by (simp add: set_conceptos)
qed





subsection \<open>Scaling to millions\<close>

lemma scaled_finite: "scaled (Num (Fin a)) = Fin (of_int (trunc_rat (a / 1000000)))"
  by (simp add: scaled_def)







subsection \<open>Sorting by \<open>variacionS\<close>\<close>

lemma positive_sub_less: "a \<noteq> NaN \<Longrightarrow> b \<noteq> NaN \<Longrightarrow> is_positive (num_sub b a) = num_less a b"
  by (cases a; cases b) (auto simp: num_sub_def)

lemma positive_sub_neq: "is_positive (num_sub b a) \<Longrightarrow> a \<noteq> b"
  by (cases a; cases b) (auto simp: num_sub_def)

lemma num_less_asym: "num_less a b \<Longrightarrow> \<not> num_less b a"
  by (cases a; cases b) auto

lemma not_less_trans:
  "a \<noteq> NaN \<Longrightarrow> b \<noteq> NaN \<Longrightarrow> c \<noteq> NaN \<Longrightarrow> \<not> num_less a b \<Longrightarrow> \<not> num_less b c \<Longrightarrow> \<not> num_less a c"
  by (cases a; cases b; cases c) auto

lemma mset_sort_insert: "mset (sort_insert cmp x ys) = add_mset x (mset ys)"
  by (induction ys) auto

lemma mset_array_sort: "mset (array_sort cmp xs) = mset xs"
  unfolding array_sort_def by (induction xs) (auto simp: mset_sort_insert)

lemma descending_sort_insert:
  assumes "variacionS x \<noteq> NaN" "\<forall>r \<in> set ys. variacionS r \<noteq> NaN" "descending ys"
  shows "descending (sort_insert by_variacion_desc x ys)"
  using assms
proof (induction ys)
  case Nil
  then show ?case by (simp add: descending_def)
next
  case (Cons y ys)
  have ny: "variacionS y \<noteq> NaN" using Cons.prems by simp
  have pos: "is_positive (by_variacion_desc x y) = num_less (variacionS x) (variacionS y)"
    using Cons.prems ny by (simp add: by_variacion_desc_def positive_sub_less)
  show ?case
  proof (cases "num_less (variacionS x) (variacionS y)")
    case True
    have "descending (sort_insert by_variacion_desc x ys)"
      using Cons by (simp add: descending_def)
    moreover have "\<forall>z \<in> set (sort_insert by_variacion_desc x ys). \<not> num_less (variacionS y) (variacionS z)"
      using Cons.prems True by (auto simp: set_sort_insert descending_def num_less_asym)
    ultimately show ?thesis using True pos by (simp add: descending_def)
  next
    case False
    have "\<forall>z \<in> set ys. \<not> num_less (variacionS x) (variacionS z)"
    proof
      fix z assume z: "z \<in> set ys"
      then have "\<not> num_less (variacionS y) (variacionS z)" "variacionS z \<noteq> NaN"
        using Cons.prems by (auto simp: descending_def)
      with False ny Cons.prems(1) show "\<not> num_less (variacionS x) (variacionS z)"
        using not_less_trans by blast
    qed
    then show ?thesis using False pos Cons.prems by (simp add: descending_def)
  qed
qed

lemma descending_array_sort:
  "\<forall>r \<in> set xs. variacionS r \<noteq> NaN \<Longrightarrow> descending (array_sort by_variacion_desc xs)"
proof (induction xs)
  case Nil
  then show ?case by (simp add: array_sort_def descending_def)
next
  case (Cons x xs)
  then have "descending (array_sort by_variacion_desc xs)" by simp
  moreover have "\<forall>r \<in> set (array_sort by_variacion_desc xs). variacionS r \<noteq> NaN"
    using Cons.prems by (simp add: set_array_sort)
  ultimately have "descending (sort_insert by_variacion_desc x (array_sort by_variacion_desc xs))"
    using Cons.prems by (intro descending_sort_insert) auto
  then show ?case by (simp add: array_sort_def)
qed

lemma filter_sort_insert:
  "filter (\<lambda>q. variacionS q = v) (sort_insert by_variacion_desc x ys)
   = filter (\<lambda>q. variacionS q = v) (x # ys)"
proof (induction ys)
  case Nil
  then show ?case by simp
next
  case (Cons y ys)
  show ?case
  proof (cases "is_positive (by_variacion_desc x y)")
    case True
    then have "variacionS x \<noteq> variacionS y"
      by (simp add: by_variacion_desc_def positive_sub_neq)
    with True Cons show ?thesis by auto
  next
    case False
    then show ?thesis by simp
  qed
qed

lemma filter_array_sort:
  "filter (\<lambda>q. variacionS q = v) (array_sort by_variacion_desc xs) = filter (\<lambda>q. variacionS q = v) xs"
proof (induction xs)
  case Nil
  then show ?case by (simp add: array_sort_def)
next
  case (Cons x xs)
  have "filter (\<lambda>q. variacionS q = v) (array_sort by_variacion_desc (x # xs))
        = filter (\<lambda>q. variacionS q = v) (x # array_sort by_variacion_desc xs)"
    by (simp add: array_sort_def filter_sort_insert del: filter.simps)
  with Cons show ?case by simp
qed

subsection \<open>The order of the labels\<close>

lemma foldl_set_add_distinct:
  "distinct ys \<Longrightarrow> foldl set_add acc ys = acc @ filter (\<lambda>k. k \<notin> set acc) ys"
proof (induction ys arbitrary: acc)
  case Nil
  then show ?case by simp
next
  case (Cons y ys)
  show ?case
  proof (cases "y \<in> set acc")
    case True
    with Cons show ?thesis by (simp add: set_add_def)
  next
    case False
    have "filter (\<lambda>k. k \<notin> set (acc @ [y])) ys = filter (\<lambda>k. k \<notin> set acc) ys"
      using Cons.prems by (intro filter_cong) auto
    with False Cons show ?thesis by (simp add: set_add_def)
  qed
qed

lemma set_from_append:
  assumes "distinct xs" "distinct ys"
  shows "set_from (xs @ ys) = xs @ filter (\<lambda>k. k \<notin> set xs) ys"
proof -
  have "foldl set_add [] xs = xs"
    using assms(1) by (simp add: foldl_set_add_distinct)
  then show ?thesis
    using assms(2) by (simp add: set_from_def foldl_set_add_distinct)
qed

lemma distinct_object_keys: "distinct (map fst d) \<Longrightarrow> distinct (object_keys d)"
  unfolding object_keys_def by (auto simp: distinct_map_filter)

lemma object_keys_no_index:
  assumes "\<forall>k \<in> fst ` set d. \<not> is_array_index k"
  shows "object_keys d = map fst d"
proof -
  have "filter is_array_index (map fst d) = []"
    using assms by (auto simp: filter_empty_conv)
  moreover have "filter (\<lambda>k. \<not> is_array_index k) (map fst d) = map fst d"
    using assms by (auto simp: filter_id_conv)
  ultimately show ?thesis by (simp add: object_keys_def)
qed

lemma conceptos_order:
  assumes "distinct (map fst a)" "distinct (map fst p)"
  shows "conceptos a p = object_keys a @ filter (\<lambda>k. k \<notin> fst ` set a) (object_keys p)"
  using assms by (simp add: conceptos_def set_from_append distinct_object_keys set_object_keys)

subsection \<open>Order of the output\<close>

lemmas differ_eval =
  differ_def unsorted_rows_def conceptos_def object_keys_def is_array_index_def is_digit_def
  digits_val_def ustr_def set_from_def set_add_def array_sort_def by_variacion_desc_def make_row_def obj_get_def
  object_prototype_names_def or_else_def scaled_def trunc_rat_def num_sub_def round1_def Let_def

text \<open>
  Claim C3, as stated, fails: an object lists the labels that are array indices first, in
  numeric order, whatever their insertion order. Both tables below hold the label \<open>b\<close>
  and then the label \<open>1\<close> with equal amounts; the two rows tie, and the output has
  \<open>1\<close> before \<open>b\<close>.
\<close>

theorem tie_order_counterexample:
  "map concepto (differ [(ustr ''b'', Fin 1000000), (ustr ''1'', Fin 1000000)]
                        [(ustr ''b'', Fin 1000000), (ustr ''1'', Fin 1000000)])
     = [ustr ''1'', ustr ''b'']
   \<and> map variacionS (differ [(ustr ''b'', Fin 1000000), (ustr ''1'', Fin 1000000)]
                            [(ustr ''b'', Fin 1000000), (ustr ''1'', Fin 1000000)])
     = [Fin 0, Fin 0]
   \<and> insertion_order_labels [(ustr ''b'', Fin 1000000), (ustr ''1'', Fin 1000000)]
                             [(ustr ''b'', Fin 1000000), (ustr ''1'', Fin 1000000)]
     = [ustr ''b'', ustr ''1'']
   \<and> \<not> retains_order
         (differ [(ustr ''b'', Fin 1000000), (ustr ''1'', Fin 1000000)]
                 [(ustr ''b'', Fin 1000000), (ustr ''1'', Fin 1000000)])
         (map (make_row [(ustr ''b'', Fin 1000000), (ustr ''1'', Fin 1000000)]
                        [(ustr ''b'', Fin 1000000), (ustr ''1'', Fin 1000000)])
              (insertion_order_labels [(ustr ''b'', Fin 1000000), (ustr ''1'', Fin 1000000)]
                                      [(ustr ''b'', Fin 1000000), (ustr ''1'', Fin 1000000)]))"
  by (simp add: differ_eval insertion_order_labels_def retains_order_def)

text \<open>
  Claim C3, amended. For two datasets with no \<open>NaN\<close> among the rows' \<open>variacionS\<close>, the
  output is a rearrangement of the pre-sort rows in which no row's \<open>variacionS\<close> exceeds
  that of an earlier row, and rows with equal \<open>variacionS\<close> keep their pre-sort order. The
  pre-sort order is the labels of the current dataset as \<^verbatim>\<open>Object.keys\<close> lists them
  (array-index labels first, ascending, then the others in insertion order), followed by
  the labels only the prior dataset has, in its \<^verbatim>\<open>Object.keys\<close> order. Where no label is
  an array index this is the insertion order of the specification.
\<close>

theorem differ_sorted_stable:
  assumes "distinct (map fst dataActual)" and "distinct (map fst dataAnterior)"
    and "\<forall>r \<in> set (unsorted_rows dataActual dataAnterior). variacionS r \<noteq> NaN"
  shows "descending (differ dataActual dataAnterior)
    \<and> retains_order (differ dataActual dataAnterior) (unsorted_rows dataActual dataAnterior)
    \<and> mset (differ dataActual dataAnterior) = mset (unsorted_rows dataActual dataAnterior)
    \<and> unsorted_rows dataActual dataAnterior
        = map (make_row dataActual dataAnterior)
            (object_keys dataActual
             @ filter (\<lambda>k. k \<notin> fst ` set dataActual) (object_keys dataAnterior))
    \<and> ((\<forall>k \<in> fst ` set dataActual \<union> fst ` set dataAnterior. \<not> is_array_index k) \<longrightarrow>
         unsorted_rows dataActual dataAnterior
           = map (make_row dataActual dataAnterior) (insertion_order_labels dataActual dataAnterior))"
proof -
  have d: "descending (differ dataActual dataAnterior)"
    unfolding differ_def using assms(3) by (rule descending_array_sort)
  have s: "retains_order (differ dataActual dataAnterior) (unsorted_rows dataActual dataAnterior)"
    by (simp add: retains_order_def differ_def filter_array_sort)
  have m: "mset (differ dataActual dataAnterior) = mset (unsorted_rows dataActual dataAnterior)"
    by (simp add: differ_def mset_array_sort)
  have k: "unsorted_rows dataActual dataAnterior
        = map (make_row dataActual dataAnterior)
            (object_keys dataActual
             @ filter (\<lambda>k. k \<notin> fst ` set dataActual) (object_keys dataAnterior))"
    unfolding unsorted_rows_def using assms(1,2) by (simp only: conceptos_order)
  have i: "(\<forall>k \<in> fst ` set dataActual \<union> fst ` set dataAnterior. \<not> is_array_index k) \<longrightarrow>
         unsorted_rows dataActual dataAnterior
           = map (make_row dataActual dataAnterior) (insertion_order_labels dataActual dataAnterior)"
  proof
    assume n: "\<forall>k \<in> fst ` set dataActual \<union> fst ` set dataAnterior. \<not> is_array_index k"
    then have "object_keys dataActual = map fst dataActual"
      "object_keys dataAnterior = map fst dataAnterior"
      by (simp_all add: object_keys_no_index)
    with k show "unsorted_rows dataActual dataAnterior
           = map (make_row dataActual dataAnterior) (insertion_order_labels dataActual dataAnterior)"
      by (simp add: insertion_order_labels_def)
  qed
  show ?thesis by (intro conjI) (rule d s m k i)+
qed

theorem differ_sorted_stable_witness:
  "distinct (map fst [(ustr ''b'', Fin 1000000), (ustr ''a'', Fin 3000000)])
   \<and> distinct (map fst [(ustr ''c'', Fin 1000000), (ustr ''a'', Fin 1000000)])
   \<and> list_all (\<lambda>r. variacionS r \<noteq> NaN)
         (unsorted_rows [(ustr ''b'', Fin 1000000), (ustr ''a'', Fin 3000000)]
                        [(ustr ''c'', Fin 1000000), (ustr ''a'', Fin 1000000)])
   \<and> list_all (\<lambda>k. \<not> is_array_index k)
         (map fst [(ustr ''b'', Fin 1000000), (ustr ''a'', Fin 3000000)]
          @ map fst [(ustr ''c'', Fin 1000000), (ustr ''a'', Fin 1000000)])
   \<and> descending (differ [(ustr ''b'', Fin 1000000), (ustr ''a'', Fin 3000000)]
                         [(ustr ''c'', Fin 1000000), (ustr ''a'', Fin 1000000)])
   \<and> retains_order (differ [(ustr ''b'', Fin 1000000), (ustr ''a'', Fin 3000000)]
                            [(ustr ''c'', Fin 1000000), (ustr ''a'', Fin 1000000)])
                    (unsorted_rows [(ustr ''b'', Fin 1000000), (ustr ''a'', Fin 3000000)]
                                   [(ustr ''c'', Fin 1000000), (ustr ''a'', Fin 1000000)])
   \<and> map concepto (unsorted_rows [(ustr ''b'', Fin 1000000), (ustr ''a'', Fin 3000000)]
                                   [(ustr ''c'', Fin 1000000), (ustr ''a'', Fin 1000000)])
       = [ustr ''b'', ustr ''a'', ustr ''c'']"
proof -
  define A where "A = [(ustr ''b'', Fin 1000000), (ustr ''a'', Fin 3000000)]"
  define P where "P = [(ustr ''c'', Fin 1000000), (ustr ''a'', Fin 1000000)]"
  have h1: "distinct (map fst A)" and h2: "distinct (map fst P)"
    by (simp_all add: A_def P_def ustr_def)
  have h3: "\<forall>r \<in> set (unsorted_rows A P). variacionS r \<noteq> NaN"
    by (simp add: A_def P_def differ_eval)
  have h4: "\<forall>k \<in> fst ` set A \<union> fst ` set P. \<not> is_array_index k"
    by (simp add: A_def P_def ustr_def is_array_index_def is_digit_def)
  note T = differ_sorted_stable [OF h1 h2 h3]
  note d = T [THEN conjunct1]
  note s = T [THEN conjunct2, THEN conjunct1]
  note i = T [THEN conjunct2, THEN conjunct2, THEN conjunct2, THEN conjunct2, THEN mp, OF h4]
  have l: "map concepto (unsorted_rows A P) = [ustr ''b'', ustr ''a'', ustr ''c'']"
    unfolding i by (simp add: insertion_order_labels_def A_def P_def ustr_def make_row_def Let_def)
  have h3': "list_all (\<lambda>r. variacionS r \<noteq> NaN) (unsorted_rows A P)"
    using h3 by (simp add: list_all_iff)
  have h4': "list_all (\<lambda>k. \<not> is_array_index k) (map fst A @ map fst P)"
    using h4 by (simp add: list_all_iff ball_Un)
  show ?thesis
    using h1 h2 h3' h4' d s l unfolding A_def P_def by (intro conjI)
qed

subsection \<open>The table parser\<close>

lemma row_step_parsed:
  "parsed_row cols \<Longrightarrow> row_step nfd (d, h) cols = (obj_set d (row_label nfd cols) (row_amount cols), True)"
  by (simp add: row_step_def parsed_row_def Let_def)

lemma row_step_skipped: "\<not> parsed_row cols \<Longrightarrow> row_step nfd st cols = st"
  by (auto simp: row_step_def parsed_row_def Let_def)

lemma foldl_row_step:
  "foldl (row_step nfd) (d, h) rows
   = (foldl (\<lambda>d r. obj_set d (row_label nfd r) (row_amount r)) d (filter parsed_row rows),
      h \<or> (\<exists>r \<in> set rows. parsed_row r))"
proof (induction rows arbitrary: d h)
  case Nil
  then show ?case by simp
next
  case (Cons r rows)
  show ?case
  proof (cases "parsed_row r")
    case True
    then show ?thesis by (simp add: row_step_parsed Cons)
  next
    case False
    then show ?thesis by (simp add: row_step_skipped Cons)
  qed
qed

lemma parse_table_rows:
  "parse_table nfd (Some rows)
   = (if \<exists>r \<in> set rows. parsed_row r
      then Inr (foldl (\<lambda>d r. obj_set d (row_label nfd r) (row_amount r)) [] (filter parsed_row rows))
      else Inl (new_Error msg_no_data))"
  by (simp add: parse_table_def foldl_row_step)

text \<open>Unfolding the parser on a concrete text.\<close>

lemmas parse_eval =
  parseFloat_def strip_sign_def unsigned_literal_def fraction_digits_def after_fraction_def
  exponent_part_def pow10_def is_space_def is_digit_def digits_val_def ustr_def inf_of_sign_def
  trim_def row_amount_def row_label_def removeAccents_def Let_def


text \<open>
  Claim C6. A row of the table is read if and only if it has at least 8 cells; its label
  is the trimmed text of cell 1 and its amount the trimmed text of cell 7, commas removed,
  given to \<^verbatim>\<open>parseFloat\<close>; a row whose amount is \<open>NaN\<close> is passed over. The parser
  fails with the "no numeric data" error exactly when no row yields an amount, as when no
  row has 8 cells; otherwise it returns the dataset built from the rows that do.
\<close>

theorem table_parser:
  "(parse_table nfd (Some rows) = Inl (new_Error msg_no_data))
     = (\<not> (\<exists>r \<in> set rows. 8 \<le> length r \<and> parseFloat (filter (\<lambda>c. c \<noteq> 44) (trim (r ! 7))) \<noteq> NaN))
   \<and> ((\<exists>r \<in> set rows. 8 \<le> length r \<and> parseFloat (filter (\<lambda>c. c \<noteq> 44) (trim (r ! 7))) \<noteq> NaN) \<longrightarrow>
        parse_table nfd (Some rows)
          = Inr (foldl (\<lambda>d r. obj_set d (removeAccents nfd (trim (r ! 1)))
                                 (parseFloat (filter (\<lambda>c. c \<noteq> 44) (trim (r ! 7)))))
                   []
                   (filter (\<lambda>r. 8 \<le> length r
                                \<and> parseFloat (filter (\<lambda>c. c \<noteq> 44) (trim (r ! 7))) \<noteq> NaN) rows)))
   \<and> ((\<forall>r \<in> set rows. length r < 8) \<longrightarrow> parse_table nfd (Some rows) = Inl (new_Error msg_no_data))"
proof -
  have p: "parsed_row = (\<lambda>r. 8 \<le> length r \<and> parseFloat (filter (\<lambda>c. c \<noteq> 44) (trim (r ! 7))) \<noteq> NaN)"
    by (simp add: parsed_row_def row_amount_def fun_eq_iff)
  have a: "(parse_table nfd (Some rows) = Inl (new_Error msg_no_data))
     = (\<not> (\<exists>r \<in> set rows. 8 \<le> length r \<and> parseFloat (filter (\<lambda>c. c \<noteq> 44) (trim (r ! 7))) \<noteq> NaN))"
    unfolding parse_table_rows p by simp
  have b: "(\<exists>r \<in> set rows. 8 \<le> length r \<and> parseFloat (filter (\<lambda>c. c \<noteq> 44) (trim (r ! 7))) \<noteq> NaN) \<longrightarrow>
        parse_table nfd (Some rows)
          = Inr (foldl (\<lambda>d r. obj_set d (removeAccents nfd (trim (r ! 1)))
                                 (parseFloat (filter (\<lambda>c. c \<noteq> 44) (trim (r ! 7)))))
                   []
                   (filter (\<lambda>r. 8 \<le> length r
                                \<and> parseFloat (filter (\<lambda>c. c \<noteq> 44) (trim (r ! 7))) \<noteq> NaN) rows))"
    unfolding parse_table_rows p by (simp add: row_label_def row_amount_def)
  have c: "(\<forall>r \<in> set rows. length r < 8) \<longrightarrow> parse_table nfd (Some rows) = Inl (new_Error msg_no_data)"
    unfolding parse_table_rows by (fastforce simp: parsed_row_def)
  show ?thesis by (intro conjI) (rule a b c)+
qed

theorem table_parser_witness:
  "(\<exists>r \<in> set [[ustr ''Concepto'', ustr ''PIA''],
                 [[], ustr '' Personal '', [], [], [], [], [], ustr '' 1,005,000,000 ''],
                 [[], ustr ''Total'', [], [], [], [], [], ustr ''n/a'']].
       8 \<le> length r \<and> parseFloat (filter (\<lambda>c. c \<noteq> 44) (trim (r ! 7))) \<noteq> NaN)
   \<and> parse_table (\<lambda>s. s)
        (Some [[ustr ''Concepto'', ustr ''PIA''],
               [[], ustr '' Personal '', [], [], [], [], [], ustr '' 1,005,000,000 ''],
               [[], ustr ''Total'', [], [], [], [], [], ustr ''n/a'']])
       = Inr [(ustr ''Personal'', Fin 1005000000)]
   \<and> list_all (\<lambda>r. length r < 8) [[ustr ''Concepto'', ustr ''PIA'']]
   \<and> parse_table (\<lambda>s. s) (Some [[ustr ''Concepto'', ustr ''PIA'']]) = Inl (new_Error msg_no_data)"
proof -
  define R where "R = [[ustr ''Concepto'', ustr ''PIA''],
                 [[], ustr '' Personal '', [], [], [], [], [], ustr '' 1,005,000,000 ''],
                 [[], ustr ''Total'', [], [], [], [], [], ustr ''n/a'']]"
  have h1: "\<exists>r \<in> set R. 8 \<le> length r \<and> parseFloat (filter (\<lambda>c. c \<noteq> 44) (trim (r ! 7))) \<noteq> NaN"
    by (simp add: R_def parse_eval)
  have h2: "\<forall>r \<in> set [[ustr ''Concepto'', ustr ''PIA'']]. length r < 8"
    by (simp add: ustr_def)
  have r1: "parse_table (\<lambda>s. s) (Some R) = Inr [(ustr ''Personal'', Fin 1005000000)]"
    unfolding table_parser [of "\<lambda>s. s" R, THEN conjunct2, THEN conjunct1, THEN mp, OF h1]
    by (simp add: R_def parse_eval obj_set_def)
  note r2 = table_parser [of "\<lambda>s. s" "[[ustr ''Concepto'', ustr ''PIA'']]",
      THEN conjunct2, THEN conjunct2, THEN mp, OF h2]
  have h2': "list_all (\<lambda>r. length r < 8) [[ustr ''Concepto'', ustr ''PIA'']]"
    using h2 by (simp add: list_all_iff)
  show ?thesis
    using h1 r1 h2' r2 unfolding R_def by (intro conjI)
qed

subsection \<open>Number of rows and missing amounts\<close>

text \<open>
  Claim C4. The number of rows is the number of distinct labels of the two datasets
  (\<open>length_differ\<close> above), and a label that one dataset lacks gets the amount \<open>0\<close>
  there when the lookup finds nothing (\<open>monto_missing\<close>). The lookup of line 89 also
  finds what \<^verbatim>\<open>Object.prototype\<close> holds: for the label \<open>constructor\<close>, present in
  the current year's table only, the prior amount is \<open>NaN\<close> and not \<open>0\<close>.
\<close>

theorem inherited_label_not_defaulted:
  "parse_table (\<lambda>s. s) (Some [[[], ustr ''constructor'', [], [], [], [], [], ustr ''5,000,000'']])
     = Inr [(ustr ''constructor'', Fin 5000000)]
   \<and> parse_table (\<lambda>s. s) (Some [[[], ustr ''a'', [], [], [], [], [], ustr ''1,000,000'']])
     = Inr [(ustr ''a'', Fin 1000000)]
   \<and> map_of [(ustr ''a'', Fin 1000000)] (ustr ''constructor'') = None
   \<and> length (differ [(ustr ''constructor'', Fin 5000000)] [(ustr ''a'', Fin 1000000)]) = 2
   \<and> map (\<lambda>r. (concepto r, montoAnterior r))
         (differ [(ustr ''constructor'', Fin 5000000)] [(ustr ''a'', Fin 1000000)])
       = [(ustr ''constructor'', NaN), (ustr ''a'', Fin 1)]"
proof -
  have a: "parse_table (\<lambda>s. s) (Some [[[], ustr ''constructor'', [], [], [], [], [], ustr ''5,000,000'']])
     = Inr [(ustr ''constructor'', Fin 5000000)]"
    by (simp add: parse_table_rows parsed_row_def obj_set_def parse_eval)
  have b: "parse_table (\<lambda>s. s) (Some [[[], ustr ''a'', [], [], [], [], [], ustr ''1,000,000'']])
     = Inr [(ustr ''a'', Fin 1000000)]"
    by (simp add: parse_table_rows parsed_row_def obj_set_def parse_eval)
  have c: "map_of [(ustr ''a'', Fin 1000000)] (ustr ''constructor'') = None
   \<and> length (differ [(ustr ''constructor'', Fin 5000000)] [(ustr ''a'', Fin 1000000)]) = 2
   \<and> map (\<lambda>r. (concepto r, montoAnterior r))
         (differ [(ustr ''constructor'', Fin 5000000)] [(ustr ''a'', Fin 1000000)])
       = [(ustr ''constructor'', NaN), (ustr ''a'', Fin 1)]"
    by (simp add: differ_eval)
  from a b c show ?thesis by (intro conjI) simp_all
qed

subsection \<open>Errors of the scraper\<close>

lemma catch_clause_new_Error: "catch_clause (new_Error msg) = new_Error msg"
  by (simp add: catch_clause_def new_Error_def)

lemma parse_table_error:
  "parse_table nfd pg = Inl e \<Longrightarrow> e = new_Error msg_no_table \<or> e = new_Error msg_no_data"
  by (cases pg) (auto simp: parse_table_def split: prod.splits if_splits)

text \<open>
  Claim C9. An error that \<^verbatim>\<open>scrapeMefData\<close> throws itself, for a page without the table
  or a table without numeric data, reaches the caller unchanged: it is a fresh
  \<^verbatim>\<open>Error\<close> with neither \<^verbatim>\<open>response\<close> nor \<^verbatim>\<open>request\<close>, and the \<^verbatim>\<open>catch\<close> clause
  replaces only an error that carries one of the two.
\<close>

theorem parse_errors_reach_caller:
  "scrapeMefData nfd (Inr None) = Inl (new_Error msg_no_table)
   \<and> ((\<forall>r \<in> set rows. \<not> parsed_row r) \<longrightarrow>
        scrapeMefData nfd (Inr (Some rows)) = Inl (new_Error msg_no_data))
   \<and> (parse_table nfd pg = Inl e \<longrightarrow>
        (e = new_Error msg_no_table \<or> e = new_Error msg_no_data)
        \<and> response e = None \<and> \<not> request e
        \<and> scrapeMefData nfd (Inr pg) = Inl e)
   \<and> (catch_clause e' \<noteq> e' \<longrightarrow> response e' \<noteq> None \<or> request e')"
proof -
  have a: "scrapeMefData nfd (Inr None) = Inl (new_Error msg_no_table)"
    by (simp add: scrapeMefData_def parse_table_def catch_clause_new_Error)
  have b: "(\<forall>r \<in> set rows. \<not> parsed_row r) \<longrightarrow>
        scrapeMefData nfd (Inr (Some rows)) = Inl (new_Error msg_no_data)"
    by (simp add: scrapeMefData_def parse_table_rows catch_clause_new_Error)
  have c: "parse_table nfd pg = Inl e \<longrightarrow>
        (e = new_Error msg_no_table \<or> e = new_Error msg_no_data)
        \<and> response e = None \<and> \<not> request e
        \<and> scrapeMefData nfd (Inr pg) = Inl e"
  proof
    assume p: "parse_table nfd pg = Inl e"
    from parse_table_error [OF p] obtain msg where e: "e = new_Error msg" by blast
    have "scrapeMefData nfd (Inr pg) = Inl e"
      using p by (simp add: scrapeMefData_def e catch_clause_new_Error)
    moreover have "response e = None \<and> \<not> request e"
      by (simp add: e new_Error_def)
    ultimately show "(e = new_Error msg_no_table \<or> e = new_Error msg_no_data)
        \<and> response e = None \<and> \<not> request e
        \<and> scrapeMefData nfd (Inr pg) = Inl e"
      using parse_table_error [OF p] by blast
  qed
  have d: "catch_clause e' \<noteq> e' \<longrightarrow> response e' \<noteq> None \<or> request e'"
    by (auto simp: catch_clause_def split: option.splits if_splits)
  show ?thesis by (intro conjI) (rule a b c d)+
qed

theorem parse_errors_reach_caller_witness:
  "list_all (\<lambda>r. \<not> parsed_row r) [[ustr ''Concepto'', ustr ''PIA'']]
   \<and> scrapeMefData (\<lambda>s. s) (Inr (Some [[ustr ''Concepto'', ustr ''PIA'']])) = Inl (new_Error msg_no_data)
   \<and> parse_table (\<lambda>s. s) None = Inl (new_Error msg_no_table)
   \<and> response (new_Error msg_no_table) = None \<and> \<not> request (new_Error msg_no_table)
   \<and> scrapeMefData (\<lambda>s. s) (Inr None) = Inl (new_Error msg_no_table)
   \<and> catch_clause \<lparr>message = ustr ''timeout'', response = None, request = True\<rparr>
       \<noteq> \<lparr>message = ustr ''timeout'', response = None, request = True\<rparr>
   \<and> (request \<lparr>message = ustr ''timeout'', response = None, request = True\<rparr>
       \<or> response \<lparr>message = ustr ''timeout'', response = None, request = True\<rparr> \<noteq> None)"
proof -
  have h1: "\<forall>r \<in> set [[ustr ''Concepto'', ustr ''PIA'']]. \<not> parsed_row r"
    by (simp add: parsed_row_def)
  have h2: "parse_table (\<lambda>s. s) None = Inl (new_Error msg_no_table)"
    by (simp add: parse_table_def)
  have h3: "catch_clause \<lparr>message = ustr ''timeout'', response = None, request = True\<rparr>
       \<noteq> \<lparr>message = ustr ''timeout'', response = None, request = True\<rparr>"
    by (simp add: catch_clause_def new_Error_def ustr_def)
  note T = parse_errors_reach_caller [of "\<lambda>s. s" "[[ustr ''Concepto'', ustr ''PIA'']]" None
      "new_Error msg_no_table" "\<lparr>message = ustr ''timeout'', response = None, request = True\<rparr>"]
  note b = T [THEN conjunct2, THEN conjunct1, THEN mp, OF h1]
  note c = T [THEN conjunct2, THEN conjunct2, THEN conjunct1, THEN mp, OF h2]
  note d = T [THEN conjunct2, THEN conjunct2, THEN conjunct2, THEN mp, OF h3]
  have h1': "list_all (\<lambda>r. \<not> parsed_row r) [[ustr ''Concepto'', ustr ''PIA'']]"
    using h1 by (simp add: list_all_iff)
  have d': "request \<lparr>message = ustr ''timeout'', response = None, request = True\<rparr>
       \<or> response \<lparr>message = ustr ''timeout'', response = None, request = True\<rparr> \<noteq> None"
    using d by blast
  show ?thesis
    using h1' b h2 c d' h3 by (intro conjI) blast+
qed

subsection \<open>Labels as keys\<close>

lemma map_of_obj_set:
  "map_of (obj_set d k v) k' = (if k' = k \<and> k \<noteq> ustr ''__proto__'' then Some v else map_of d k')"
  by (simp add: obj_set_def update_conv')

lemma distinct_obj_set: "distinct (map fst d) \<Longrightarrow> distinct (map fst (obj_set d k v))"
  by (simp add: obj_set_def distinct_update)

lemma distinct_foldl_obj_set:
  "distinct (map fst d) \<Longrightarrow> distinct (map fst (foldl (\<lambda>d r. obj_set d (lab r) (amt r)) d rs))"
  by (induction rs arbitrary: d) (simp_all add: distinct_obj_set)

lemma map_of_foldl_obj_set:
  "map_of (foldl (\<lambda>d r. obj_set d (lab r) (amt r)) d rs) k
   = (if k \<noteq> ustr ''__proto__'' \<and> (\<exists>r \<in> set rs. lab r = k)
      then Some (amt (last (filter (\<lambda>r. lab r = k) rs)))
      else map_of d k)"
proof (induction rs rule: rev_induct)
  case Nil
  then show ?case by simp
next
  case (snoc r rs)
  then show ?case by (auto simp: map_of_obj_set)
qed

text \<open>
  For every label but \<^verbatim>\<open>__proto__\<close>: the rows whose normalized labels are equal share
  one key, which holds the amount of the last of them.
\<close>

lemma last_write_wins:
  assumes "parse_table nfd (Some rows) = Inr data"
    and "r \<in> set rows" and "parsed_row r"
    and "row_label nfd r \<noteq> ustr ''__proto__''"
  shows "distinct (map fst data)
    \<and> map_of data (row_label nfd r)
        = Some (row_amount (last (filter (\<lambda>q. parsed_row q \<and> row_label nfd q = row_label nfd r) rows)))"
proof -
  have ex: "\<exists>q \<in> set rows. parsed_row q" using assms(2,3) by blast
  then have data: "data = foldl (\<lambda>d r. obj_set d (row_label nfd r) (row_amount r)) [] (filter parsed_row rows)"
    using assms(1) by (simp add: parse_table_rows)
  have "\<exists>q \<in> set (filter parsed_row rows). row_label nfd q = row_label nfd r"
    using assms(2,3) by auto
  then have "map_of data (row_label nfd r)
      = Some (row_amount (last (filter (\<lambda>q. row_label nfd q = row_label nfd r) (filter parsed_row rows))))"
    unfolding data using assms(4) by (simp only: map_of_foldl_obj_set if_True simp_thms)
  moreover have "filter (\<lambda>q. row_label nfd q = row_label nfd r) (filter parsed_row rows)
      = filter (\<lambda>q. parsed_row q \<and> row_label nfd q = row_label nfd r) rows"
    by (simp add: conj_commute)
  moreover have "distinct (map fst data)"
    unfolding data by (simp add: distinct_foldl_obj_set)
  ultimately show ?thesis by simp
qed

text \<open>
  Claim C8. The label is normalized before it is stored (\<open>row_label\<close> in \<open>row_step\<close>), and
  rows with equal normalized labels share one key with the last amount (\<open>last_write_wins\<close>),
  except for the label \<^verbatim>\<open>__proto__\<close>: the assignment of line 43 stores nothing for it.
  Two rows with that label and the amounts 5 and 7 give a dataset without any key.
\<close>

theorem proto_label_not_stored:
  "parsed_row [[], ustr ''__proto__'', [], [], [], [], [], ustr ''5'']
   \<and> parsed_row [[], ustr ''__proto__'', [], [], [], [], [], ustr ''7'']
   \<and> row_label (\<lambda>s. s) [[], ustr ''__proto__'', [], [], [], [], [], ustr ''7''] = ustr ''__proto__''
   \<and> parse_table (\<lambda>s. s)
        (Some [[[], ustr ''__proto__'', [], [], [], [], [], ustr ''5''],
               [[], ustr ''__proto__'', [], [], [], [], [], ustr ''7'']])
       = Inr []"
  by (simp add: parse_table_rows parsed_row_def obj_set_def parse_eval)

subsection \<open>The numeric prefix\<close>


















subsection \<open>The year of the URL\<close>

lemma year_here_Some:
  "year_here s = Some (ds, rest) \<Longrightarrow> token_at s 0 \<and> ds = take 4 (drop 2 s) \<and> rest = drop 6 s"
  by (auto simp: year_here_def token_at_def ustr_def split: list.splits if_splits)

lemma year_here_None: "year_here s = None \<Longrightarrow> \<not> token_at s 0"
  by (auto simp: year_here_def token_at_def ustr_def split: list.splits if_splits)

lemma token_at_Cons: "token_at (c # cs) (Suc i) = token_at cs i"
  by (simp add: token_at_def)

lemma year_match_None: "year_match before s = None \<Longrightarrow> \<not> token_at s i"
proof (induction s arbitrary: before i)
  case Nil
  then show ?case by (simp add: token_at_def ustr_def)
next
  case (Cons c cs)
  from Cons.prems have h: "year_here (c # cs) = None" and m: "year_match (before @ [c]) cs = None"
    by (auto split: option.splits)
  show ?case
  proof (cases i)
    case 0
    with h show ?thesis by (simp add: year_here_None)
  next
    case (Suc j)
    with Cons.IH [OF m] show ?thesis by (simp add: token_at_Cons)
  qed
qed

lemma year_match_Some:
  "year_match before s = Some (b, ds, rest) \<Longrightarrow>
   \<exists>i. token_at s i \<and> (\<forall>j<i. \<not> token_at s j) \<and> b = before @ take i s
       \<and> ds = take 4 (drop (i + 2) s) \<and> rest = drop (i + 6) s"
proof (induction s arbitrary: before)
  case Nil
  then show ?case by simp
next
  case (Cons c cs)
  show ?case
  proof (cases "year_here (c # cs)")
    case (Some m)
    then obtain ds' rest' where m: "year_here (c # cs) = Some (ds', rest')" by (cases m) auto
    with Cons.prems have "b = before" "ds = ds'" "rest = rest'" by auto
    with year_here_Some [OF m] show ?thesis
      by (intro exI [of _ 0]) simp
  next
    case None
    with Cons.prems have "year_match (before @ [c]) cs = Some (b, ds, rest)" by simp
    from Cons.IH [OF this] obtain i where i: "token_at cs i" "\<forall>j<i. \<not> token_at cs j"
      "b = (before @ [c]) @ take i cs" "ds = take 4 (drop (i + 2) cs)" "rest = drop (i + 6) cs"
      by blast
    have "\<forall>j<Suc i. \<not> token_at (c # cs) j"
    proof (intro allI impI)
      fix j assume "j < Suc i"
      then show "\<not> token_at (c # cs) j"
        using i(2) year_here_None [OF None] by (cases j) (auto simp: token_at_Cons)
    qed
    moreover have "drop (Suc i + 6) (c # cs) = drop (i + 6) cs"
      "take 4 (drop (Suc i + 2) (c # cs)) = take 4 (drop (i + 2) cs)"
      "before @ take (Suc i) (c # cs) = (before @ [c]) @ take i cs"
      by (simp_all only: add_Suc drop_Suc_Cons take_Suc_Cons append_Cons append_Nil append_assoc)
    moreover have "token_at (c # cs) (Suc i)"
      using i(1) by (simp add: token_at_Cons)
    ultimately show ?thesis
      using i(3,4,5) by (intro exI [of _ "Suc i"]) (simp only: simp_thms)
  qed
qed

lemma resolve_year_None: "(\<forall>i. \<not> token_at url i) \<Longrightarrow> resolve_year url = None"
proof (cases "year_match [] url")
  case None
  then show ?thesis by (simp add: resolve_year_def)
next
  case (Some m)
  assume n: "\<forall>i. \<not> token_at url i"
  obtain b ds rest where "year_match [] url = Some (b, ds, rest)"
    using Some by (cases m) auto
  from year_match_Some [OF this] n show ?thesis by blast
qed

lemma resolve_year_Some:
  assumes "token_at url k"
  shows "\<exists>i. token_at url i \<and> (\<forall>j<i. \<not> token_at url j)
       \<and> resolve_year url
           = Some (int (digits_val (take 4 (drop (i + 2) url))),
                   int (digits_val (take 4 (drop (i + 2) url))) - 1,
                   take i url @ ustr ''y=''
                     @ show_int (int (digits_val (take 4 (drop (i + 2) url))) - 1)
                     @ drop (i + 6) url)"
proof (cases "year_match [] url")
  case None
  from year_match_None [OF this] assms show ?thesis by blast
next
  case (Some m)
  obtain b ds rest where m: "year_match [] url = Some (b, ds, rest)"
    using Some by (cases m) auto
  from year_match_Some [OF m] obtain i where i: "token_at url i" "\<forall>j<i. \<not> token_at url j"
    "b = take i url" "ds = take 4 (drop (i + 2) url)" "rest = drop (i + 6) url"
    by auto
  have "resolve_year url
           = Some (int (digits_val (take 4 (drop (i + 2) url))),
                   int (digits_val (take 4 (drop (i + 2) url))) - 1,
                   take i url @ ustr ''y=''
                     @ show_int (int (digits_val (take 4 (drop (i + 2) url))) - 1)
                     @ drop (i + 6) url)"
    by (simp add: resolve_year_def m i(3,4,5) Let_def)
  with i(1,2) show ?thesis by blast
qed

lemma comparar_requests:
  "resolve_year url = Some (ya, yp, up) \<Longrightarrow> url \<noteq> [] \<Longrightarrow>
   snd (comparar nfd fetch first_settled (Some url)) = [url, up]"
  by (simp add: comparar_def split: sum.splits prod.splits)

lemma comparar_no_year:
  "resolve_year url = None \<Longrightarrow>
   comparar nfd fetch first_settled (Some url)
     = (\<lparr>status = 400, json = ErrorBody (if url = [] then msg_url_required else msg_no_year)\<rparr>, [])"
  by (simp add: comparar_def)

text \<open>
  Claim C7. For a URL that holds the token \<^verbatim>\<open>y=\<close> followed by 4 digits, the handler
  takes the first such place: \<open>yearActual\<close> is the number the 4 digits spell,
  \<open>yearAnterior\<close> is one less, \<open>urlAnterior\<close> is the URL with that \<^verbatim>\<open>y=\<close> and its 4
  digits replaced by \<^verbatim>\<open>y=\<close> and \<open>yearAnterior\<close>, and the two URLs are the ones requested.
  For a URL without such a token, and for a body without \<^verbatim>\<open>url\<close>, the response is 400
  with a message and nothing is requested.
\<close>

theorem year_resolution:
  "((\<exists>k. token_at url k) \<longrightarrow>
      (\<exists>i. token_at url i \<and> (\<forall>j<i. \<not> token_at url j)
         \<and> resolve_year url
             = Some (int (digits_val (take 4 (drop (i + 2) url))),
                     int (digits_val (take 4 (drop (i + 2) url))) - 1,
                     take i url @ ustr ''y=''
                       @ show_int (int (digits_val (take 4 (drop (i + 2) url))) - 1)
                       @ drop (i + 6) url)
         \<and> snd (comparar nfd fetch first_settled (Some url))
             = [url, take i url @ ustr ''y=''
                       @ show_int (int (digits_val (take 4 (drop (i + 2) url))) - 1)
                       @ drop (i + 6) url]))
   \<and> ((\<forall>k. \<not> token_at url k) \<longrightarrow>
        comparar nfd fetch first_settled (Some url)
          = (\<lparr>status = 400, json = ErrorBody (if url = [] then msg_url_required else msg_no_year)\<rparr>, []))
   \<and> comparar nfd fetch first_settled None
       = (\<lparr>status = 400, json = ErrorBody msg_url_required\<rparr>, [])"
proof -
  have a: "(\<exists>k. token_at url k) \<longrightarrow>
      (\<exists>i. token_at url i \<and> (\<forall>j<i. \<not> token_at url j)
         \<and> resolve_year url
             = Some (int (digits_val (take 4 (drop (i + 2) url))),
                     int (digits_val (take 4 (drop (i + 2) url))) - 1,
                     take i url @ ustr ''y=''
                       @ show_int (int (digits_val (take 4 (drop (i + 2) url))) - 1)
                       @ drop (i + 6) url)
         \<and> snd (comparar nfd fetch first_settled (Some url))
             = [url, take i url @ ustr ''y=''
                       @ show_int (int (digits_val (take 4 (drop (i + 2) url))) - 1)
                       @ drop (i + 6) url])"
  proof
    assume "\<exists>k. token_at url k"
    then obtain k where k: "token_at url k" ..
    then have ne: "url \<noteq> []" by (auto simp: token_at_def ustr_def)
    from resolve_year_Some [OF k] obtain i where i: "token_at url i" "\<forall>j<i. \<not> token_at url j"
      "resolve_year url
           = Some (int (digits_val (take 4 (drop (i + 2) url))),
                   int (digits_val (take 4 (drop (i + 2) url))) - 1,
                   take i url @ ustr ''y=''
                     @ show_int (int (digits_val (take 4 (drop (i + 2) url))) - 1)
                     @ drop (i + 6) url)"
      by blast
    note r = comparar_requests [OF i(3) ne, of nfd fetch first_settled]
    from i r show "\<exists>i. token_at url i \<and> (\<forall>j<i. \<not> token_at url j)
         \<and> resolve_year url
             = Some (int (digits_val (take 4 (drop (i + 2) url))),
                     int (digits_val (take 4 (drop (i + 2) url))) - 1,
                     take i url @ ustr ''y=''
                       @ show_int (int (digits_val (take 4 (drop (i + 2) url))) - 1)
                       @ drop (i + 6) url)
         \<and> snd (comparar nfd fetch first_settled (Some url))
             = [url, take i url @ ustr ''y=''
                       @ show_int (int (digits_val (take 4 (drop (i + 2) url))) - 1)
                       @ drop (i + 6) url]"
      by blast
  qed
  have b: "(\<forall>k. \<not> token_at url k) \<longrightarrow>
        comparar nfd fetch first_settled (Some url)
          = (\<lparr>status = 400, json = ErrorBody (if url = [] then msg_url_required else msg_no_year)\<rparr>, [])"
    using resolve_year_None comparar_no_year by blast
  have c: "comparar nfd fetch first_settled None
       = (\<lparr>status = 400, json = ErrorBody msg_url_required\<rparr>, [])"
    by (simp add: comparar_def)
  show ?thesis by (intro conjI) (rule a b c)+
qed

theorem year_resolution_witness:
  "token_at (ustr ''?y=2023&a'') 1
   \<and> resolve_year (ustr ''?y=2023&a'') = Some (2023, 2022, ustr ''?y=2022&a'')
   \<and> snd (comparar (\<lambda>s. s) (\<lambda>u. Inr None) Actual (Some (ustr ''?y=2023&a'')))
       = [ustr ''?y=2023&a'', ustr ''?y=2022&a'']
   \<and> (\<forall>k. \<not> token_at (ustr ''?year=2023'') k)
   \<and> comparar (\<lambda>s. s) (\<lambda>u. Inr None) Actual (Some (ustr ''?year=2023''))
       = (\<lparr>status = 400, json = ErrorBody msg_no_year\<rparr>, [])"
proof -
  define U where "U = ustr ''?y=2023&a''"
  have t1: "token_at U 1" and t0: "\<not> token_at U 0"
    by (simp_all add: U_def token_at_def ustr_def is_digit_def)
  then have ex: "\<exists>k. token_at U k" by blast
  from year_resolution [of U "\<lambda>s. s" "\<lambda>u. Inr None" Actual, THEN conjunct1, THEN mp, OF ex]
  obtain i where i: "token_at U i" "\<forall>j<i. \<not> token_at U j"
    "resolve_year U
             = Some (int (digits_val (take 4 (drop (i + 2) U))),
                     int (digits_val (take 4 (drop (i + 2) U))) - 1,
                     take i U @ ustr ''y=''
                       @ show_int (int (digits_val (take 4 (drop (i + 2) U))) - 1)
                       @ drop (i + 6) U)"
    "snd (comparar (\<lambda>s. s) (\<lambda>u. Inr None) Actual (Some U))
             = [U, take i U @ ustr ''y=''
                       @ show_int (int (digits_val (take 4 (drop (i + 2) U))) - 1)
                       @ drop (i + 6) U]"
    by blast
  have "i = 1"
  proof -
    have "\<not> 1 < i" using i(2) t1 by blast
    moreover have "i \<noteq> 0" using i(1) t0 by (cases i) auto
    ultimately show ?thesis by simp
  qed
  have y: "int (digits_val (take 4 (drop (1 + 2) U))) = 2023"
    by (simp add: U_def ustr_def digits_val_def)
  have u: "take 1 U @ ustr ''y='' @ show_int (2023 - 1) @ drop (1 + 6) U = ustr ''?y=2022&a''"
    by (simp add: U_def ustr_def show_int_def show_nat.simps)
  have r1: "resolve_year U = Some (2023, 2022, ustr ''?y=2022&a'')"
    using i(3) unfolding \<open>i = 1\<close> y u by simp
  have r2: "snd (comparar (\<lambda>s. s) (\<lambda>u. Inr None) Actual (Some U)) = [U, ustr ''?y=2022&a'']"
    using i(4) unfolding \<open>i = 1\<close> y u by simp
  have n: "\<forall>k. \<not> token_at (ustr ''?year=2023'') k"
  proof
    fix k
    have "year_match [] (ustr ''?year=2023'') = None"
      by (simp add: ustr_def year_here_def)
    then show "\<not> token_at (ustr ''?year=2023'') k" by (rule year_match_None)
  qed
  have r3: "comparar (\<lambda>s. s) (\<lambda>u. Inr None) Actual (Some (ustr ''?year=2023''))
       = (\<lparr>status = 400, json = ErrorBody msg_no_year\<rparr>, [])"
    using year_resolution [of "ustr ''?year=2023''" "\<lambda>s. s" "\<lambda>u. Inr None" Actual,
        THEN conjunct2, THEN conjunct1, THEN mp, OF n]
    by (simp add: ustr_def)
  show ?thesis
    using t1 r1 r2 n r3 unfolding U_def by (intro conjI)
qed

subsection \<open>The two pipelines\<close>

lemma resolve_year_nonempty: "resolve_year url = Some y \<Longrightarrow> url \<noteq> []"
  by (auto simp: resolve_year_def)

lemma msg_year_nonempty: "msg_year year msg \<noteq> []"
  by (simp add: msg_year_def ustr_def)

lemma comparar_resolved:
  assumes "resolve_year url = Some (ya, yp, up)"
  shows "fst (comparar nfd fetch first_settled (Some url))
    = (case promise_all first_settled
              (with_year ya (scrapeMefData nfd (fetch url)))
              (with_year yp (scrapeMefData nfd (fetch up))) of
         Inl e \<Rightarrow> \<lparr>status = 500, json = ErrorBody (message e)\<rparr>
       | Inr (a, p) \<Rightarrow> \<lparr>status = 200, json = ResultBody ya yp (differ a p)\<rparr>)"
proof -
  have ne: "url \<noteq> []" using assms by (rule resolve_year_nonempty)
  have m: "promise_all first_settled
              (with_year ya (scrapeMefData nfd (fetch url)))
              (with_year yp (scrapeMefData nfd (fetch up))) = Inl e \<Longrightarrow> message e \<noteq> []" for e
    by (auto simp: promise_all_def with_year_def new_Error_def msg_year_nonempty
        split: sum.splits if_splits)
  show ?thesis
    using assms ne m by (auto simp: comparar_def split: sum.splits prod.splits)
qed

text \<open>
  Claim C5. When a pipeline fails and the other one succeeds or fails later, the response
  is 500 and its message is the failing pipeline's message after
  \<^verbatim>\<open>Error en datos de <year>: \<close> with that pipeline's year; the other outcome plays no
  part. When both succeed the response is 200 with the Differ's rows.
\<close>

theorem pipeline_failures:
  "resolve_year url = Some (yearActual, yearAnterior, urlAnterior) \<longrightarrow>
     (\<forall>e. scrapeMefData nfd (fetch url) = Inl e
           \<and> (first_settled = Actual \<or> (\<exists>d. scrapeMefData nfd (fetch urlAnterior) = Inr d)) \<longrightarrow>
          fst (comparar nfd fetch first_settled (Some url))
            = \<lparr>status = 500,
               json = ErrorBody (ustr ''Error en datos de '' @ show_int yearActual @ ustr '': '' @ message e)\<rparr>)
   \<and> (\<forall>e. scrapeMefData nfd (fetch urlAnterior) = Inl e
           \<and> (first_settled = Anterior \<or> (\<exists>d. scrapeMefData nfd (fetch url) = Inr d)) \<longrightarrow>
          fst (comparar nfd fetch first_settled (Some url))
            = \<lparr>status = 500,
               json = ErrorBody (ustr ''Error en datos de '' @ show_int yearAnterior @ ustr '': '' @ message e)\<rparr>)
   \<and> (\<forall>dataActual dataAnterior.
          scrapeMefData nfd (fetch url) = Inr dataActual
          \<and> scrapeMefData nfd (fetch urlAnterior) = Inr dataAnterior \<longrightarrow>
          fst (comparar nfd fetch first_settled (Some url))
            = \<lparr>status = 200, json = ResultBody yearActual yearAnterior (differ dataActual dataAnterior)\<rparr>)"
proof
  assume r: "resolve_year url = Some (yearActual, yearAnterior, urlAnterior)"
  note c = comparar_resolved [OF r, of nfd fetch first_settled]
  have a: "\<forall>e. scrapeMefData nfd (fetch url) = Inl e
           \<and> (first_settled = Actual \<or> (\<exists>d. scrapeMefData nfd (fetch urlAnterior) = Inr d)) \<longrightarrow>
          fst (comparar nfd fetch first_settled (Some url))
            = \<lparr>status = 500,
               json = ErrorBody (ustr ''Error en datos de '' @ show_int yearActual @ ustr '': '' @ message e)\<rparr>"
    unfolding c
    by (auto simp: promise_all_def with_year_def new_Error_def msg_year_def split: sum.splits)
  have b: "\<forall>e. scrapeMefData nfd (fetch urlAnterior) = Inl e
           \<and> (first_settled = Anterior \<or> (\<exists>d. scrapeMefData nfd (fetch url) = Inr d)) \<longrightarrow>
          fst (comparar nfd fetch first_settled (Some url))
            = \<lparr>status = 500,
               json = ErrorBody (ustr ''Error en datos de '' @ show_int yearAnterior @ ustr '': '' @ message e)\<rparr>"
    unfolding c
    by (auto simp: promise_all_def with_year_def new_Error_def msg_year_def split: sum.splits)
  have d: "\<forall>dataActual dataAnterior.
          scrapeMefData nfd (fetch url) = Inr dataActual
          \<and> scrapeMefData nfd (fetch urlAnterior) = Inr dataAnterior \<longrightarrow>
          fst (comparar nfd fetch first_settled (Some url))
            = \<lparr>status = 200, json = ResultBody yearActual yearAnterior (differ dataActual dataAnterior)\<rparr>"
    unfolding c by (auto simp: promise_all_def with_year_def)
  show "(\<forall>e. scrapeMefData nfd (fetch url) = Inl e
           \<and> (first_settled = Actual \<or> (\<exists>d. scrapeMefData nfd (fetch urlAnterior) = Inr d)) \<longrightarrow>
          fst (comparar nfd fetch first_settled (Some url))
            = \<lparr>status = 500,
               json = ErrorBody (ustr ''Error en datos de '' @ show_int yearActual @ ustr '': '' @ message e)\<rparr>)
   \<and> (\<forall>e. scrapeMefData nfd (fetch urlAnterior) = Inl e
           \<and> (first_settled = Anterior \<or> (\<exists>d. scrapeMefData nfd (fetch url) = Inr d)) \<longrightarrow>
          fst (comparar nfd fetch first_settled (Some url))
            = \<lparr>status = 500,
               json = ErrorBody (ustr ''Error en datos de '' @ show_int yearAnterior @ ustr '': '' @ message e)\<rparr>)
   \<and> (\<forall>dataActual dataAnterior.
          scrapeMefData nfd (fetch url) = Inr dataActual
          \<and> scrapeMefData nfd (fetch urlAnterior) = Inr dataAnterior \<longrightarrow>
          fst (comparar nfd fetch first_settled (Some url))
            = \<lparr>status = 200, json = ResultBody yearActual yearAnterior (differ dataActual dataAnterior)\<rparr>)"
    by (intro conjI) (rule a b d)+
qed

lemma resolve_year_example:
  "resolve_year (ustr ''?y=2023&a'') = Some (2023, 2022, ustr ''?y=2022&a'')"
  by (simp add: resolve_year_def year_here_def ustr_def is_digit_def digits_val_def
      show_int_def show_nat.simps)

theorem pipeline_failures_witness:
  "resolve_year (ustr ''?y=2023&a'') = Some (2023, 2022, ustr ''?y=2022&a'')
   \<and> scrapeMefData (\<lambda>s. s) (Inr None) = Inl (new_Error msg_no_table)
   \<and> scrapeMefData (\<lambda>s. s) (Inl \<lparr>message = ustr ''timeout'', response = None, request = True\<rparr>)
       = Inl (new_Error msg_network)
   \<and> fst (comparar (\<lambda>s. s)
            (\<lambda>u. if u = ustr ''?y=2023&a'' then Inr None
                 else Inl \<lparr>message = ustr ''timeout'', response = None, request = True\<rparr>)
            Actual (Some (ustr ''?y=2023&a'')))
       = \<lparr>status = 500, json = ErrorBody (ustr ''Error en datos de 2023: '' @ msg_no_table)\<rparr>
   \<and> fst (comparar (\<lambda>s. s)
            (\<lambda>u. if u = ustr ''?y=2023&a'' then Inr None
                 else Inl \<lparr>message = ustr ''timeout'', response = None, request = True\<rparr>)
            Anterior (Some (ustr ''?y=2023&a'')))
       = \<lparr>status = 500, json = ErrorBody (ustr ''Error en datos de 2022: '' @ msg_network)\<rparr>
   \<and> fst (comparar (\<lambda>s. s)
            (\<lambda>u. if u = ustr ''?y=2023&a''
                 then Inr (Some [[[], ustr ''Personal'', [], [], [], [], [], ustr ''1,005,000,000'']])
                 else Inr (Some [[[], ustr ''Personal'', [], [], [], [], [], ustr ''1,000,000,000'']]))
            Actual (Some (ustr ''?y=2023&a'')))
       = \<lparr>status = 200,
          json = ResultBody 2023 2022
                   [\<lparr>concepto = ustr ''Personal'', montoAnterior = Fin 1000, montoActual = Fin 1005,
                     variacionS = Fin 5, variacionPorcentaje = Fin (1 / 2)\<rparr>]\<rparr>"
proof -
  define U where "U = ustr ''?y=2023&a''"
  define UP where "UP = ustr ''?y=2022&a''"
  define F :: "jsstring \<Rightarrow> js_error + page" where
    "F = (\<lambda>u. if u = U then Inr None
              else Inl \<lparr>message = ustr ''timeout'', response = None, request = True\<rparr>)"
  define S :: "jsstring \<Rightarrow> js_error + page" where
    "S = (\<lambda>u. if u = U
              then Inr (Some [[[], ustr ''Personal'', [], [], [], [], [], ustr ''1,005,000,000'']])
              else Inr (Some [[[], ustr ''Personal'', [], [], [], [], [], ustr ''1,000,000,000'']]))"
  have ne: "UP \<noteq> U" by (simp add: U_def UP_def ustr_def)
  have r: "resolve_year U = Some (2023, 2022, UP)"
    unfolding U_def UP_def by (rule resolve_year_example)
  have f1: "scrapeMefData (\<lambda>s. s) (Inr None) = Inl (new_Error msg_no_table)"
    by (simp add: scrapeMefData_def parse_table_def catch_clause_new_Error)
  have f2: "scrapeMefData (\<lambda>s. s) (Inl \<lparr>message = ustr ''timeout'', response = None, request = True\<rparr>)
       = Inl (new_Error msg_network)"
    by (simp add: scrapeMefData_def catch_clause_def ustr_def)
  have s1: "scrapeMefData (\<lambda>s. s) (S U) = Inr [(ustr ''Personal'', Fin 1005000000)]"
    by (simp add: S_def scrapeMefData_def parse_table_rows parsed_row_def obj_set_def parse_eval)
  have s2: "scrapeMefData (\<lambda>s. s) (S UP) = Inr [(ustr ''Personal'', Fin 1000000000)]"
    using ne by (simp add: S_def scrapeMefData_def parse_table_rows parsed_row_def obj_set_def parse_eval)
  have FU: "F U = Inr None" and FP: "F UP = Inl \<lparr>message = ustr ''timeout'', response = None, request = True\<rparr>"
    using ne by (simp_all add: F_def)
  note T = pipeline_failures [of U 2023 2022 UP "\<lambda>s. s", THEN mp, OF r]
  have h1: "scrapeMefData (\<lambda>s. s) (F U) = Inl (new_Error msg_no_table)
           \<and> (Actual = Actual \<or> (\<exists>d. scrapeMefData (\<lambda>s. s) (F UP) = Inr d))"
    by (simp add: FU f1)
  have h2: "scrapeMefData (\<lambda>s. s) (F UP) = Inl (new_Error msg_network)
           \<and> (Anterior = Anterior \<or> (\<exists>d. scrapeMefData (\<lambda>s. s) (F U) = Inr d))"
    by (simp add: FP f2)
  have h3: "scrapeMefData (\<lambda>s. s) (S U) = Inr [(ustr ''Personal'', Fin 1005000000)]
          \<and> scrapeMefData (\<lambda>s. s) (S UP) = Inr [(ustr ''Personal'', Fin 1000000000)]"
    using s1 s2 by simp
  have c1: "fst (comparar (\<lambda>s. s) F Actual (Some U))
       = \<lparr>status = 500, json = ErrorBody (ustr ''Error en datos de 2023: '' @ msg_no_table)\<rparr>"
    unfolding T [of F Actual, THEN conjunct1, THEN spec, THEN mp, OF h1]
    by (simp add: new_Error_def ustr_def show_int_def show_nat.simps)
  have c2: "fst (comparar (\<lambda>s. s) F Anterior (Some U))
       = \<lparr>status = 500, json = ErrorBody (ustr ''Error en datos de 2022: '' @ msg_network)\<rparr>"
    unfolding T [of F Anterior, THEN conjunct2, THEN conjunct1, THEN spec, THEN mp, OF h2]
    by (simp add: new_Error_def ustr_def show_int_def show_nat.simps)
  have d: "differ [(ustr ''Personal'', Fin 1005000000)] [(ustr ''Personal'', Fin 1000000000)]
      = [\<lparr>concepto = ustr ''Personal'', montoAnterior = Fin 1000, montoActual = Fin 1005,
                     variacionS = Fin 5, variacionPorcentaje = Fin (1 / 2)\<rparr>]"
    by (simp add: differ_eval)
  have c3: "fst (comparar (\<lambda>s. s) S Actual (Some U))
       = \<lparr>status = 200,
          json = ResultBody 2023 2022
                   [\<lparr>concepto = ustr ''Personal'', montoAnterior = Fin 1000, montoActual = Fin 1005,
                     variacionS = Fin 5, variacionPorcentaje = Fin (1 / 2)\<rparr>]\<rparr>"
    unfolding T [of S Actual, THEN conjunct2, THEN conjunct2, THEN spec, THEN spec, THEN mp, OF h3] d
    by simp
  show ?thesis
    using r f1 f2 c1 c2 c3 unfolding U_def UP_def F_def S_def by (intro conjI)
qed

end
